theory Spec2Isabelle
  imports Main "HOL-Library.Multiset"
begin

section \<open>Data model\<close>

text \<open>
  A model instance of a class set up by \<open>treeify\<close>: its primary key (none while the
  instance is unsaved), the foreign key column of its parent attribute and the four tree
  fields \<open>lft\<close>, \<open>rght\<close>, \<open>tree_id\<close> and \<open>level\<close> (the default attribute names of
  \<open>treeify\<close>). The fields are Python integers, hence unbounded.
  The database table is the list of its rows.
\<close>

record node =
  pk :: "nat option"
  parent_pk :: "nat option"
  lft :: int
  rght :: int
  tree_id :: int
  level :: int

type_synonym store = "node list"

text \<open>
  The exceptions the signal receivers can end with: \<open>InvalidParent\<close> is raised by
  \<open>_pre_save\<close> itself, \<open>DoesNotExist\<close> by a lookup \<open>get(pk=...)\<close> that finds no row,
  \<open>UnboundLocalError\<close> by Python when a local variable is read on a path that never
  assigned it. A call ends by returning or by raising; the database and the instance
  attributes are what they were at that moment.
\<close>

datatype error = InvalidParent | DoesNotExist | UnboundLocalError

datatype outcome = Returned | Raised error

section \<open>The tree manager\<close>

text \<open>
  \<open>mptt/managers.py\<close> is not among the sources. Its three re-parenting operations that
  leave the tree or enter it are parameters of \<open>pre_save\<close>: each receives the instance
  (and the new parent) and the table, and yields the table, the instance and how it ended.
\<close>

record manager =
  make_root_node :: "node \<Rightarrow> store \<Rightarrow> store \<times> node \<times> outcome"
  make_child_node :: "node \<Rightarrow> node \<Rightarrow> store \<Rightarrow> store \<times> node \<times> outcome"
  move_to_new_tree :: "node \<Rightarrow> node \<Rightarrow> store \<Rightarrow> store \<times> node \<times> outcome"

text \<open>
  Modelled from the spec: \<open>TreeManager.create_space\<close> of \<open>mptt/managers.py\<close> is missing.
  Section 4.1: adds \<open>width\<close> to every left and right value strictly greater than
  \<open>target_right\<close> within \<open>tree_id\<close>.
\<close>

definition create_space :: "int \<Rightarrow> int \<Rightarrow> int \<Rightarrow> store \<Rightarrow> store" where
  "create_space width target_right tid db =
     map (\<lambda>r. if tree_id r = tid
               then r\<lparr>lft := (if lft r > target_right then lft r + width else lft r),
                      rght := (if rght r > target_right then rght r + width else rght r)\<rparr>
               else r) db"

text \<open>
  Modelled from the spec: \<open>TreeManager.close_gap\<close> of \<open>mptt/managers.py\<close> is missing.
  Section 4.1: subtracts \<open>width\<close> from every left and right value strictly greater than
  \<open>target_right\<close> within \<open>tree_id\<close>.
\<close>

definition close_gap :: "int \<Rightarrow> int \<Rightarrow> int \<Rightarrow> store \<Rightarrow> store" where
  "close_gap width target_right tid db =
     map (\<lambda>r. if tree_id r = tid
               then r\<lparr>lft := (if lft r > target_right then lft r - width else lft r),
                      rght := (if rght r > target_right then rght r - width else rght r)\<rparr>
               else r) db"

text \<open>
  Modelled from the spec: \<open>TreeManager.get_next_tree_id\<close> of \<open>mptt/managers.py\<close> is
  missing. Section 4.5: an integer strictly greater than any \<open>tree_id\<close> currently in use,
  \<open>max(tree_id) + 1\<close>, or \<open>1\<close> if the store is empty.
\<close>

definition get_next_tree_id :: "store \<Rightarrow> int" where
  "get_next_tree_id db = (if db = [] then 1 else Max (set (map tree_id db)) + 1)"

section \<open>Database access of the signal receivers\<close>

text \<open>\<open>instance._default_manager.get(pk=k)\<close>: the row with that primary key.\<close>

definition get_row :: "store \<Rightarrow> nat option \<Rightarrow> error + node" where
  "get_row db k =
     (case find (\<lambda>r. pk r = k) db of None \<Rightarrow> Inl DoesNotExist | Some r \<Rightarrow> Inr r)"

text \<open>
  Reading the parent attribute of a row fetched from the table: none when the foreign
  key column is empty, the fetched parent row otherwise.
\<close>

definition getattr_parent :: "store \<Rightarrow> node \<Rightarrow> error + node option" where
  "getattr_parent db row =
     (case parent_pk row of
        None \<Rightarrow> Inr None
      | Some p \<Rightarrow>
          (case get_row db (Some p) of
             Inl e \<Rightarrow> Inl e
           | Inr q \<Rightarrow> Inr (Some q)))"

text \<open>
  Lines 52-53 of \<open>signals.py\<close>: the parent attribute of the freshly fetched row of the
  instance.
\<close>

definition old_parent :: "store \<Rightarrow> node \<Rightarrow> error + node option" where
  "old_parent db inst =
     (case get_row db (pk inst) of
        Inl e \<Rightarrow> Inl e
      | Inr row \<Rightarrow> getattr_parent db row)"

text \<open>
  The statement \<open>level_change_query\<close> (lines 84-97), with its four parameters in the
  order in which \<open>cursor.execute\<close> passes them.
\<close>

definition level_change_query :: "int \<Rightarrow> int \<Rightarrow> int \<Rightarrow> int \<Rightarrow> store \<Rightarrow> store" where
  "level_change_query p1 p2 p3 p4 db =
     map (\<lambda>r. if lft r \<ge> p2 \<and> lft r \<le> p3 \<and> tree_id r = p4
               then r\<lparr>level := level r - p1\<rparr>
               else r) db"

text \<open>
  The statement \<open>move_subtree_query\<close> (lines 99-118), with its thirteen parameters in the
  order of the placeholders. Both \<open>CASE\<close> expressions read the row as it was before the
  statement.
\<close>

definition move_subtree_query ::
  "int \<Rightarrow> int \<Rightarrow> int \<Rightarrow> int \<Rightarrow> int \<Rightarrow> int \<Rightarrow> int \<Rightarrow> int \<Rightarrow> int \<Rightarrow> int \<Rightarrow> int \<Rightarrow> int \<Rightarrow> int
     \<Rightarrow> store \<Rightarrow> store" where
  "move_subtree_query p1 p2 p3 p4 p5 p6 p7 p8 p9 p10 p11 p12 p13 db =
     map (\<lambda>r. if tree_id r = p13
               then r\<lparr>lft := (if lft r \<ge> p1 \<and> lft r \<le> p2 then lft r + p3
                               else if lft r \<ge> p4 \<and> lft r \<le> p5 then lft r + p6
                               else lft r),
                      rght := (if rght r \<ge> p7 \<and> rght r \<le> p8 then rght r + p9
                               else if rght r \<ge> p10 \<and> rght r \<le> p11 then rght r + p12
                               else rght r)\<rparr>
               else r) db"

section \<open>The signal receivers of \<open>mptt/signals.py\<close>\<close>

text \<open>\<open>not instance.pk\<close>: true for no key and for the key 0.\<close>

definition not_pk :: "node \<Rightarrow> bool" where
  "not_pk inst = (case pk inst of None \<Rightarrow> True | Some k \<Rightarrow> k = 0)"

text \<open>
  \<open>_pre_save(instance)\<close>. The argument \<open>parent\<close> is the value of
  \<open>getattr(instance, parent_attr)\<close>, a model instance or none; a model instance is
  true in a condition, and two model instances are equal when their primary keys are.
  Where the call raises, the table and the instance are returned as the statements
  executed before have left them. The variable \<open>level_change\<close> is assigned only under
  the test of line 82, so it is carried as an option and read at line 143.
\<close>

definition pre_save :: "manager \<Rightarrow> store \<Rightarrow> node \<Rightarrow> node option \<Rightarrow> store \<times> node \<times> outcome" where
  "pre_save mgr db inst parent =
     (if not_pk inst then
        (case parent of
           Some p \<Rightarrow>
             (let target_right = rght p - 1;
                  tid = tree_id p;
                  db1 = create_space 2 target_right tid db
              in (db1,
                  inst\<lparr>lft := target_right + 1, rght := target_right + 2,
                       tree_id := tid, level := level p + 1\<rparr>,
                  Returned))
         | None \<Rightarrow>
             (db,
              inst\<lparr>lft := 1, rght := 2, tree_id := get_next_tree_id db, level := 0\<rparr>,
              Returned))
      else
        (case old_parent db inst of
           Inl e \<Rightarrow> (db, inst, Raised e)
         | Inr oldp \<Rightarrow>
             if map_option pk parent \<noteq> map_option pk oldp then
               (case parent of
                  None \<Rightarrow> make_root_node mgr inst db
                | Some p \<Rightarrow>
                    (case oldp of
                       None \<Rightarrow> make_child_node mgr inst p db
                     | Some op \<Rightarrow>
                         if tree_id p \<noteq> tree_id inst then move_to_new_tree mgr inst p db
                         else if lft inst \<le> lft p \<and> lft p \<le> rght inst
                         then (db, inst, Raised InvalidParent)
                         else
                           (let tid = tree_id inst;
                                node_left = lft inst;
                                node_right = rght inst;
                                (level_change, db1) =
                                  (if level p \<noteq> level op
                                   then (let lc = level inst - level p - 1
                                         in (Some lc,
                                             level_change_query lc node_left node_right tid db))
                                   else (None, db));
                                parent_right = rght p;
                                subtree_width = node_right - node_left + 1;
                                new_left = parent_right - subtree_width;
                                new_right = parent_right - 1;
                                left_boundary = min node_left new_left;
                                right_boundary = max node_right new_right;
                                left_right_change = new_left - node_left;
                                gap_size = (if left_right_change > 0 then - subtree_width
                                            else subtree_width);
                                db2 = move_subtree_query
                                        node_left node_right left_right_change
                                        left_boundary right_boundary gap_size
                                        node_left node_right left_right_change
                                        left_boundary right_boundary gap_size
                                        tid db1;
                                inst1 = inst\<lparr>lft := new_left, rght := new_right\<rparr>
                            in (case level_change of
                                  None \<Rightarrow> (db2, inst1, Raised UnboundLocalError)
                                | Some lc \<Rightarrow>
                                    (db2, inst1\<lparr>level := level inst1 - lc\<rparr>, Returned)))))
             else (db, inst, Returned)))"

text \<open>\<open>_pre_delete(instance)\<close>: one call of \<open>close_gap\<close>; the instance is not changed.\<close>

definition pre_delete :: "store \<Rightarrow> node \<Rightarrow> store" where
  "pre_delete db inst =
     (let tree_width = rght inst - lft inst + 1;
          target_right = rght inst;
          tid = tree_id inst
      in close_gap tree_width target_right tid db)"

section \<open>The instance methods of \<open>mptt/models.py\<close>\<close>

text \<open>
  \<open>_get_ancestors(instance, ascending)\<close>. As in \<open>pre_save\<close>, \<open>parent\<close> is the value of
  \<open>getattr(instance, parent_attr)\<close>. \<open>order_by\<close> sorts by the left value, reversed under
  a leading minus sign.
\<close>

definition get_ancestors :: "store \<Rightarrow> node \<Rightarrow> node option \<Rightarrow> bool \<Rightarrow> node list" where
  "get_ancestors db inst parent ascending =
     (if parent = None then []
      else (let rows = filter (\<lambda>r. lft r < lft inst \<and> rght r > rght inst
                                   \<and> tree_id r = tree_id inst) db
            in if ascending then rev (sort_key lft rows) else sort_key lft rows))"

text \<open>\<open>_get_descendants(instance, include_self)\<close>.\<close>

definition get_descendants :: "store \<Rightarrow> node \<Rightarrow> bool \<Rightarrow> node list" where
  "get_descendants db inst include_self =
     sort_key lft
       (filter (\<lambda>r. tree_id r = tree_id inst \<and>
                    (if include_self then lft inst \<le> lft r \<and> lft r \<le> rght inst
                     else lft r > lft inst \<and> lft r < rght inst)) db)"

text \<open>
  \<open>_get_descendant_count(instance)\<close>. The division of two Python 2 integers rounds
  towards minus infinity, as \<open>div\<close> on \<open>int\<close> does.
\<close>

definition get_descendant_count :: "node \<Rightarrow> int" where
  "get_descendant_count inst = (rght inst - lft inst - 1) div 2"

section \<open>Saving and deleting\<close>

text \<open>
  The framework around the receivers, for sequences of operations: \<open>save\<close> reads the
  parent through the foreign key, runs \<open>pre_save\<close> and, when that returned, writes the
  instance (a new row with the next unused key, or over the row with its key);
  \<open>delete\<close> runs \<open>pre_delete\<close> and removes the row.
\<close>

definition next_pk :: "store \<Rightarrow> nat" where
  "next_pk db = Suc (fold max (map (\<lambda>r. case pk r of None \<Rightarrow> 0 | Some k \<Rightarrow> k) db) 0)"

definition save :: "manager \<Rightarrow> store \<Rightarrow> node \<Rightarrow> store \<times> node \<times> outcome" where
  "save mgr db inst =
     (case getattr_parent db inst of
        Inl e \<Rightarrow> (db, inst, Raised e)
      | Inr parent \<Rightarrow>
          (case pre_save mgr db inst parent of
             (db1, inst1, Raised e) \<Rightarrow> (db1, inst1, Raised e)
           | (db1, inst1, Returned) \<Rightarrow>
               if not_pk inst1
               then (let inst2 = inst1\<lparr>pk := Some (next_pk db1)\<rparr>
                     in (db1 @ [inst2], inst2, Returned))
               else (map (\<lambda>r. if pk r = pk inst1 then inst1 else r) db1, inst1, Returned)))"

definition delete :: "store \<Rightarrow> node \<Rightarrow> store" where
  "delete db inst = filter (\<lambda>r. pk r \<noteq> pk inst) (pre_delete db inst)"

text \<open>
  The operations of a caller: creating a node under a parent (or as a root), deleting the
  node with a key, giving the node with a key another parent. A sequence stops at the
  first operation that raises.
\<close>

datatype operation = Create "nat option" | Delete nat | Reparent nat "nat option"

fun apply_operation :: "manager \<Rightarrow> store \<Rightarrow> operation \<Rightarrow> error + store" where
  "apply_operation mgr db (Create p) =
     (case save mgr db \<lparr>pk = None, parent_pk = p, lft = 0, rght = 0, tree_id = 0, level = 0\<rparr> of
        (db1, _, Raised e) \<Rightarrow> Inl e
      | (db1, _, Returned) \<Rightarrow> Inr db1)"
| "apply_operation mgr db (Delete k) =
     (case get_row db (Some k) of
        Inl e \<Rightarrow> Inl e
      | Inr row \<Rightarrow> Inr (delete db row))"
| "apply_operation mgr db (Reparent k p) =
     (case get_row db (Some k) of
        Inl e \<Rightarrow> Inl e
      | Inr row \<Rightarrow>
          (case save mgr db (row\<lparr>parent_pk := p\<rparr>) of
             (db1, _, Raised e) \<Rightarrow> Inl e
           | (db1, _, Returned) \<Rightarrow> Inr db1))"

fun run :: "manager \<Rightarrow> store \<Rightarrow> operation list \<Rightarrow> error + store" where
  "run mgr db [] = Inr db"
| "run mgr db (x # xs) =
     (case apply_operation mgr db x of
        Inl e \<Rightarrow> Inl e
      | Inr db1 \<Rightarrow> run mgr db1 xs)"

section \<open>The encoding invariants of the specification\<close>

text \<open>
  The ancestors of a row by its parent references: the chain of parents, followed for at
  most as many steps as the table has rows.
\<close>

fun parent_chain :: "store \<Rightarrow> nat \<Rightarrow> node \<Rightarrow> node list" where
  "parent_chain db 0 n = []"
| "parent_chain db (Suc k) n =
     (case parent_pk n of
        None \<Rightarrow> []
      | Some p \<Rightarrow>
          (case find (\<lambda>r. pk r = Some p) db of
             None \<Rightarrow> []
           | Some q \<Rightarrow> q # parent_chain db k q))"

definition is_ancestor :: "store \<Rightarrow> node \<Rightarrow> node \<Rightarrow> bool" where
  "is_ancestor db a b = list_ex (\<lambda>q. pk q = pk a) (parent_chain db (length db) b)"

definition actual_descendants :: "store \<Rightarrow> node \<Rightarrow> node list" where
  "actual_descendants db n = filter (\<lambda>d. is_ancestor db n d) db"

definition tree_rows :: "store \<Rightarrow> int \<Rightarrow> node list" where
  "tree_rows db t = filter (\<lambda>r. tree_id r = t) db"

definition encloses :: "node \<Rightarrow> node \<Rightarrow> bool" where
  "encloses a b = (tree_id a = tree_id b \<and> lft a < lft b \<and> rght a > rght b)"

text \<open>The field constraints of the data model: stored rows have distinct keys, \<open>left < right\<close>.\<close>

definition data_model :: "store \<Rightarrow> bool" where
  "data_model db =
     (distinct (map pk db) \<and> (\<forall>n \<in> set db. pk n \<noteq> None \<and> 0 < lft n \<and> lft n < rght n))"

text \<open>Invariant 1: the left and right values of a tree are exactly \<open>1, ..., 2n\<close>.\<close>

definition invariant1 :: "store \<Rightarrow> bool" where
  "invariant1 db =
     (\<forall>n \<in> set db.
        sort (map lft (tree_rows db (tree_id n)) @ map rght (tree_rows db (tree_id n)))
          = [1 .. 2 * int (length (tree_rows db (tree_id n)))])"

text \<open>
  Invariant 2: the ancestors of a row, by parent references, are the rows of its tree
  whose interval strictly encloses its own.
\<close>

definition invariant2 :: "store \<Rightarrow> bool" where
  "invariant2 db = (\<forall>a \<in> set db. \<forall>b \<in> set db. is_ancestor db a b = encloses a b)"

text \<open>Invariant 3: the parent is the nearest ancestor.\<close>

definition invariant3 :: "store \<Rightarrow> bool" where
  "invariant3 db =
     (\<forall>a \<in> set db. \<forall>b \<in> set db.
        (parent_pk b = pk a) =
          (encloses a b \<and> \<not> (\<exists>c \<in> set db. encloses a c \<and> encloses c b)))"

text \<open>Invariant 4: \<open>right - left\<close> is odd and gives the number of descendants.\<close>

definition invariant4 :: "store \<Rightarrow> bool" where
  "invariant4 db =
     (\<forall>n \<in> set db.
        odd (rght n - lft n) \<and>
        get_descendant_count n = int (length (actual_descendants db n)))"

text \<open>Invariant 5: roots have level 0, a child the level of its parent plus one.\<close>

definition invariant5 :: "store \<Rightarrow> bool" where
  "invariant5 db =
     (\<forall>n \<in> set db.
        (parent_pk n = None \<longrightarrow> level n = 0) \<and>
        (\<forall>p \<in> set db. parent_pk n = pk p \<longrightarrow> level n = level p + 1))"

definition well_formed :: "store \<Rightarrow> bool" where
  "well_formed db =
     (data_model db \<and> invariant1 db \<and> invariant2 db \<and> invariant3 db \<and>
      invariant4 db \<and> invariant5 db)"

text \<open>A left or right value that lies outside the interval of an instance.\<close>

definition outside :: "node \<Rightarrow> int \<Rightarrow> bool" where
  "outside inst v = (v < lft inst \<or> rght inst < v)"

section \<open>Example data\<close>

definition row :: "nat \<Rightarrow> nat option \<Rightarrow> int \<Rightarrow> int \<Rightarrow> int \<Rightarrow> int \<Rightarrow> node" where
  "row k p l r t lv =
     \<lparr>pk = Some k, parent_pk = p, lft = l, rght = r, tree_id = t, level = lv\<rparr>"

text \<open>
  A manager for examples: each of its three operations returns at once and changes
  nothing. It stands for no code of \<open>mptt/managers.py\<close>; most examples never reach it.
\<close>

definition idle_manager :: manager where
  "idle_manager =
     \<lparr>make_root_node = (\<lambda>inst db. (db, inst, Returned)),
      make_child_node = (\<lambda>inst p db. (db, inst, Returned)),
      move_to_new_tree = (\<lambda>inst p db. (db, inst, Returned))\<rparr>"

section \<open>Creation\<close>

lemma get_next_tree_id_fresh: "r \<in> set db \<Longrightarrow> tree_id r < get_next_tree_id db"
proof -
  assume r: "r \<in> set db"
  then have ne: "db \<noteq> []" by auto
  have "tree_id r \<le> Max (set (map tree_id db))"
    using r by (intro Max_ge) auto
  with ne show ?thesis by (simp add: get_next_tree_id_def)
qed

lemma create_space_parent:
  assumes P: "P \<in> set db" and lr: "lft P < rght P"
  shows "P\<lparr>rght := rght P + 2\<rparr> \<in> set (create_space 2 (rght P - 1) (tree_id P) db)"
proof -
  let ?f = "\<lambda>r. if tree_id r = tree_id P
               then r\<lparr>lft := (if lft r > rght P - 1 then lft r + 2 else lft r),
                      rght := (if rght r > rght P - 1 then rght r + 2 else rght r)\<rparr>
               else r"
  have "?f P = P\<lparr>rght := rght P + 2\<rparr>" using lr by simp
  moreover have "?f P \<in> ?f ` set db" using P by (rule imageI)
  ultimately show ?thesis
    unfolding create_space_def set_map by simp
qed

lemma create_space_lft:
  assumes "x \<in> set (create_space w t tid db)" and "tree_id x = tid"
  shows "\<exists>y \<in> set db. lft x = (if lft y > t then lft y + w else lft y)"
proof -
  from assms(1) obtain y where y: "y \<in> set db"
    and x: "x = (if tree_id y = tid
               then y\<lparr>lft := (if lft y > t then lft y + w else lft y),
                      rght := (if rght y > t then rght y + w else rght y)\<rparr>
               else y)"
    unfolding create_space_def set_map by blast
  have "tree_id y = tid" using x assms(2) by (cases "tree_id y = tid") simp_all
  then have "lft x = (if lft y > t then lft y + w else lft y)" using x by simp
  with y show ?thesis by blast
qed

lemma create_space_rightmost:
  assumes "x \<in> set (get_descendants (create_space 2 (rght P - 1) (tree_id P) db)
                     (P\<lparr>rght := rght P + 2\<rparr>) False)"
  shows "lft x < rght P"
proof -
  from assms have m: "x \<in> set (create_space 2 (rght P - 1) (tree_id P) db)"
    and t: "tree_id x = tree_id P" and b: "lft x < rght P + 2"
    by (simp_all add: get_descendants_def)
  from create_space_lft[OF m t] obtain y :: node
    where "lft x = (if lft y > rght P - 1 then lft y + 2 else lft y)" by blast
  with b show ?thesis by (cases "lft y > rght P - 1") simp_all
qed

text \<open>
  C5. Creating a node (an instance without a key). Without a parent the instance gets
  left 1, right 2, level 0 and the next tree id, which is greater than every tree id in
  the table, and the table is not rewritten. With a parent \<open>P\<close> and \<open>r = P.right - 1\<close> the
  table becomes \<open>create_space(2, r, P.tree_id)\<close> of itself and the instance gets left
  \<open>r + 1\<close>, right \<open>r + 2\<close>, the tree id of \<open>P\<close> and the level of \<open>P\<close> plus one. When \<open>P\<close>
  is a stored row with \<open>left < right\<close>, its row afterwards has its right value raised by
  2, the new interval lies strictly inside it, and every descendant of that row in the
  rewritten table has a left value below the new node's: the new node is the rightmost
  child.
\<close>

theorem create_sets_tree_fields:
  assumes "not_pk inst"
  shows "pre_save mgr db inst None
           = (db, inst\<lparr>lft := 1, rght := 2, tree_id := get_next_tree_id db, level := 0\<rparr>,
              Returned) \<and>
         (\<forall>r \<in> set db. tree_id r < get_next_tree_id db) \<and>
         pre_save mgr db inst (Some P)
           = (create_space 2 (rght P - 1) (tree_id P) db,
              inst\<lparr>lft := (rght P - 1) + 1, rght := (rght P - 1) + 2,
                   tree_id := tree_id P, level := level P + 1\<rparr>, Returned) \<and>
         (P \<in> set db \<and> lft P < rght P \<longrightarrow>
            P\<lparr>rght := rght P + 2\<rparr> \<in> set (create_space 2 (rght P - 1) (tree_id P) db) \<and>
            lft P < (rght P - 1) + 1 \<and> (rght P - 1) + 2 < rght P + 2 \<and>
            (\<forall>x \<in> set (get_descendants (create_space 2 (rght P - 1) (tree_id P) db)
                          (P\<lparr>rght := rght P + 2\<rparr>) False).
               lft x < (rght P - 1) + 1))"
proof (intro conjI impI ballI)
  show "pre_save mgr db inst None
           = (db, inst\<lparr>lft := 1, rght := 2, tree_id := get_next_tree_id db, level := 0\<rparr>,
              Returned)"
    using assms by (simp add: pre_save_def)
  show "pre_save mgr db inst (Some P)
           = (create_space 2 (rght P - 1) (tree_id P) db,
              inst\<lparr>lft := (rght P - 1) + 1, rght := (rght P - 1) + 2,
                   tree_id := tree_id P, level := level P + 1\<rparr>, Returned)"
    using assms by (simp add: pre_save_def Let_def)
next
  fix r assume "r \<in> set db"
  then show "tree_id r < get_next_tree_id db" by (rule get_next_tree_id_fresh)
next
  assume "P \<in> set db \<and> lft P < rght P"
  then show "P\<lparr>rght := rght P + 2\<rparr> \<in> set (create_space 2 (rght P - 1) (tree_id P) db)"
    using create_space_parent by blast
next
  assume "P \<in> set db \<and> lft P < rght P"
  then show "lft P < (rght P - 1) + 1" by simp
next
  show "(rght P - 1) + 2 < rght P + 2" by simp
next
  fix x
  assume "x \<in> set (get_descendants (create_space 2 (rght P - 1) (tree_id P) db)
                          (P\<lparr>rght := rght P + 2\<rparr>) False)"
  then show "lft x < (rght P - 1) + 1" using create_space_rightmost[of x P db] by simp
qed

theorem create_sets_tree_fields_witness:
  "not_pk \<lparr>pk = None, parent_pk = Some 1, lft = 0, rght = 0, tree_id = 0, level = 0\<rparr> \<and>
   pre_save idle_manager [row 1 None 1 2 1 0]
      \<lparr>pk = None, parent_pk = Some 1, lft = 0, rght = 0, tree_id = 0, level = 0\<rparr>
      (Some (row 1 None 1 2 1 0))
     = ([row 1 None 1 4 1 0],
        \<lparr>pk = None, parent_pk = Some 1, lft = 2, rght = 3, tree_id = 1, level = 1\<rparr>,
        Returned) \<and>
   pre_save idle_manager [row 1 None 1 2 1 0]
      \<lparr>pk = None, parent_pk = None, lft = 0, rght = 0, tree_id = 0, level = 0\<rparr> None
     = ([row 1 None 1 2 1 0],
        \<lparr>pk = None, parent_pk = None, lft = 1, rght = 2, tree_id = 2, level = 0\<rparr>,
        Returned)"
proof -
  have h: "not_pk \<lparr>pk = None, parent_pk = Some 1, lft = 0, rght = 0, tree_id = 0, level = 0\<rparr>"
    and h': "not_pk \<lparr>pk = None, parent_pk = None, lft = 0, rght = 0, tree_id = 0, level = 0\<rparr>"
    by (simp_all add: not_pk_def)
  show ?thesis
    using h create_sets_tree_fields[OF h, of idle_manager "[row 1 None 1 2 1 0]" "row 1 None 1 2 1 0"]
      create_sets_tree_fields[OF h', of idle_manager "[row 1 None 1 2 1 0]" "row 1 None 1 2 1 0"]
    by (simp add: create_space_def get_next_tree_id_def row_def)
qed

section \<open>Deletion\<close>

lemma close_gap_nth:
  "i < length db \<Longrightarrow> close_gap w t tid db ! i =
     (if tree_id (db ! i) = tid
      then (db ! i)\<lparr>lft := (if lft (db ! i) > t then lft (db ! i) - w else lft (db ! i)),
                    rght := (if rght (db ! i) > t then rght (db ! i) - w else rght (db ! i))\<rparr>
      else db ! i)"
  by (simp add: close_gap_def)

lemma shift_mono:
  fixes l r v1 v2 :: int
  assumes "v1 < l \<or> r < v1" "v2 < l \<or> r < v2"
  shows "((if v1 > r then v1 - (r - l + 1) else v1) < (if v2 > r then v2 - (r - l + 1) else v2))
           = (v1 < v2)"
  using assms by (cases "v1 > r"; cases "v2 > r"; simp; linarith)

lemma pre_delete_nth:
  "i < length db \<Longrightarrow>
     tree_id (pre_delete db inst ! i) = tree_id (db ! i) \<and>
     lft (pre_delete db inst ! i) =
       (if tree_id (db ! i) = tree_id inst \<and> lft (db ! i) > rght inst
        then lft (db ! i) - (rght inst - lft inst + 1) else lft (db ! i)) \<and>
     rght (pre_delete db inst ! i) =
       (if tree_id (db ! i) = tree_id inst \<and> rght (db ! i) > rght inst
        then rght (db ! i) - (rght inst - lft inst + 1) else rght (db ! i))"
  by (simp add: pre_delete_def Let_def close_gap_nth)

lemma pre_delete_order:
  assumes "i < length db" "j < length db"
    and "tree_id (db ! i) = tree_id (db ! j)"
    and "outside inst (lft (db ! i))" "outside inst (rght (db ! i))"
        "outside inst (lft (db ! j))" "outside inst (rght (db ! j))"
  shows "(lft (pre_delete db inst ! i) < lft (pre_delete db inst ! j))
           = (lft (db ! i) < lft (db ! j))"
    and "encloses (pre_delete db inst ! i) (pre_delete db inst ! j) = encloses (db ! i) (db ! j)"
proof -
  note ni = pre_delete_nth[OF assms(1), of inst] and nj = pre_delete_nth[OF assms(2), of inst]
  note ll = shift_mono[OF assms(4)[unfolded outside_def] assms(6)[unfolded outside_def]]
  note rr = shift_mono[OF assms(7)[unfolded outside_def] assms(5)[unfolded outside_def]]
  show "(lft (pre_delete db inst ! i) < lft (pre_delete db inst ! j))
          = (lft (db ! i) < lft (db ! j))"
  proof (cases "tree_id (db ! i) = tree_id inst")
    case True
    then show ?thesis using ni nj assms(3) ll by simp
  next
    case False
    then show ?thesis using ni nj assms(3) by simp
  qed
  show "encloses (pre_delete db inst ! i) (pre_delete db inst ! j) = encloses (db ! i) (db ! j)"
  proof (cases "tree_id (db ! i) = tree_id inst")
    case True
    then show ?thesis using ni nj assms(3) ll rr by (simp add: encloses_def)
  next
    case False
    then show ?thesis using ni nj assms(3) by (simp add: encloses_def)
  qed
qed

text \<open>
  C6. \<open>_pre_delete\<close> is the call \<open>close_gap(right - left + 1, right, tree_id)\<close>. In the
  tree R(1,6), C1(2,3), C2(4,5), deleting C1 leaves exactly R(1,4) and C2(2,3). In
  general the table keeps its length, and two rows of one tree whose left and right
  values lie outside the interval of the deleted instance keep the order of their left
  values and their enclosure (ancestor) relation.
\<close>

theorem delete_closes_gap:
  "pre_delete db inst = close_gap (rght inst - lft inst + 1) (rght inst) (tree_id inst) db \<and>
   delete [row 1 None 1 6 1 0, row 2 (Some 1) 2 3 1 1, row 3 (Some 1) 4 5 1 1]
          (row 2 (Some 1) 2 3 1 1)
     = [row 1 None 1 4 1 0, row 3 (Some 1) 2 3 1 1] \<and>
   length (pre_delete db inst) = length db \<and>
   (\<forall>i < length db. \<forall>j < length db.
      tree_id (db ! i) = tree_id (db ! j) \<and>
      outside inst (lft (db ! i)) \<and> outside inst (rght (db ! i)) \<and>
      outside inst (lft (db ! j)) \<and> outside inst (rght (db ! j)) \<longrightarrow>
      (lft (pre_delete db inst ! i) < lft (pre_delete db inst ! j))
         = (lft (db ! i) < lft (db ! j)) \<and>
      encloses (pre_delete db inst ! i) (pre_delete db inst ! j) = encloses (db ! i) (db ! j))"
proof -
  have a: "pre_delete db inst
             = close_gap (rght inst - lft inst + 1) (rght inst) (tree_id inst) db"
    by (simp add: pre_delete_def)
  have b: "delete [row 1 None 1 6 1 0, row 2 (Some 1) 2 3 1 1, row 3 (Some 1) 4 5 1 1]
          (row 2 (Some 1) 2 3 1 1)
     = [row 1 None 1 4 1 0, row 3 (Some 1) 2 3 1 1]"
    by (simp add: delete_def pre_delete_def close_gap_def row_def)
  have c: "length (pre_delete db inst) = length db"
    by (simp add: pre_delete_def close_gap_def Let_def)
  have d: "\<forall>i < length db. \<forall>j < length db.
      tree_id (db ! i) = tree_id (db ! j) \<and>
      outside inst (lft (db ! i)) \<and> outside inst (rght (db ! i)) \<and>
      outside inst (lft (db ! j)) \<and> outside inst (rght (db ! j)) \<longrightarrow>
      (lft (pre_delete db inst ! i) < lft (pre_delete db inst ! j))
         = (lft (db ! i) < lft (db ! j)) \<and>
      encloses (pre_delete db inst ! i) (pre_delete db inst ! j) = encloses (db ! i) (db ! j)"
    using pre_delete_order[of _ db _ inst] by simp
  from a b c d show ?thesis by (intro conjI)
qed

theorem delete_closes_gap_witness:
  "outside (row 2 (Some 1) 2 3 1 1) 1 \<and> outside (row 2 (Some 1) 2 3 1 1) 6 \<and>
   outside (row 2 (Some 1) 2 3 1 1) 4 \<and> outside (row 2 (Some 1) 2 3 1 1) 5 \<and>
   pre_delete [row 1 None 1 6 1 0, row 2 (Some 1) 2 3 1 1, row 3 (Some 1) 4 5 1 1]
              (row 2 (Some 1) 2 3 1 1)
     = [row 1 None 1 4 1 0, row 2 (Some 1) 2 3 1 1, row 3 (Some 1) 2 3 1 1] \<and>
   encloses (pre_delete [row 1 None 1 6 1 0, row 2 (Some 1) 2 3 1 1, row 3 (Some 1) 4 5 1 1]
              (row 2 (Some 1) 2 3 1 1) ! 0)
            (pre_delete [row 1 None 1 6 1 0, row 2 (Some 1) 2 3 1 1, row 3 (Some 1) 4 5 1 1]
              (row 2 (Some 1) 2 3 1 1) ! 2)"
  using delete_closes_gap[of "[row 1 None 1 6 1 0, row 2 (Some 1) 2 3 1 1, row 3 (Some 1) 4 5 1 1]"
      "row 2 (Some 1) 2 3 1 1"]
  by (simp add: outside_def close_gap_def row_def encloses_def)

section \<open>Saving an existing instance\<close>

text \<open>
  C7. Saving an existing instance whose parent is the stored parent changes nothing: no
  branch of the re-parenting is entered, the table and the instance are returned as
  they were.
\<close>

theorem save_same_parent_noop:
  assumes "\<not> not_pk inst"
    and "old_parent db inst = Inr oldp"
    and "map_option pk parent = map_option pk oldp"
  shows "pre_save mgr db inst parent = (db, inst, Returned)"
  using assms by (simp add: pre_save_def)

theorem save_same_parent_noop_witness:
  "\<not> not_pk (row 2 (Some 1) 2 3 1 1) \<and>
   old_parent [row 1 None 1 4 1 0, row 2 (Some 1) 2 3 1 1] (row 2 (Some 1) 2 3 1 1)
     = Inr (Some (row 1 None 1 4 1 0)) \<and>
   pre_save idle_manager [row 1 None 1 4 1 0, row 2 (Some 1) 2 3 1 1] (row 2 (Some 1) 2 3 1 1)
      (Some (row 1 None 1 4 1 0))
     = ([row 1 None 1 4 1 0, row 2 (Some 1) 2 3 1 1], row 2 (Some 1) 2 3 1 1, Returned)"
proof -
  have h1: "\<not> not_pk (row 2 (Some 1) 2 3 1 1)"
    by (simp add: not_pk_def row_def)
  have h2: "old_parent [row 1 None 1 4 1 0, row 2 (Some 1) 2 3 1 1] (row 2 (Some 1) 2 3 1 1)
     = Inr (Some (row 1 None 1 4 1 0))"
    by (simp add: old_parent_def get_row_def getattr_parent_def row_def)
  have h3: "map_option pk (Some (row 1 None 1 4 1 0)) = map_option pk (Some (row 1 None 1 4 1 0))"
    by simp
  show ?thesis
    using h1 h2 save_same_parent_noop[OF h1 h2 h3, of idle_manager] by simp
qed

text \<open>
  C3. Saving a stored instance with a new parent \<open>p\<close> that has the tree id of the
  instance. When the stored parent of the instance is a row other than \<open>p\<close>, the call
  raises \<open>InvalidParent\<close> exactly when the left value of \<open>p\<close> lies in
  \<open>[instance.left, instance.right]\<close>, and when it does, the table and the instance are
  what they were before the call. When the stored parent is none (the instance is a
  root), the test of line 60 comes first: the call is \<open>make_child_node(instance, p)\<close> of
  the manager and the check of lines 73-76 is not reached.
\<close>

theorem invalid_parent_iff:
  assumes "\<not> not_pk inst"
    and "tree_id p = tree_id inst"
  shows "(old_parent db inst = Inr (Some oldp) \<and> pk p \<noteq> pk oldp \<longrightarrow>
            (snd (snd (pre_save mgr db inst (Some p))) = Raised InvalidParent
               \<longleftrightarrow> lft inst \<le> lft p \<and> lft p \<le> rght inst) \<and>
            (snd (snd (pre_save mgr db inst (Some p))) = Raised InvalidParent
               \<longrightarrow> fst (pre_save mgr db inst (Some p)) = db
                   \<and> fst (snd (pre_save mgr db inst (Some p))) = inst)) \<and>
         (old_parent db inst = Inr None \<longrightarrow>
            pre_save mgr db inst (Some p) = make_child_node mgr inst p db)"
proof (intro conjI impI)
  assume "old_parent db inst = Inr (Some oldp) \<and> pk p \<noteq> pk oldp"
  with assms show
    "snd (snd (pre_save mgr db inst (Some p))) = Raised InvalidParent
       \<longleftrightarrow> lft inst \<le> lft p \<and> lft p \<le> rght inst"
    by (simp add: pre_save_def Let_def split: prod.splits option.splits)
next
  assume "old_parent db inst = Inr (Some oldp) \<and> pk p \<noteq> pk oldp"
    and "snd (snd (pre_save mgr db inst (Some p))) = Raised InvalidParent"
  with assms show "fst (pre_save mgr db inst (Some p)) = db"
    by (simp add: pre_save_def Let_def split: prod.splits option.splits if_splits)
next
  assume "old_parent db inst = Inr (Some oldp) \<and> pk p \<noteq> pk oldp"
    and "snd (snd (pre_save mgr db inst (Some p))) = Raised InvalidParent"
  with assms show "fst (snd (pre_save mgr db inst (Some p))) = inst"
    by (simp add: pre_save_def Let_def split: prod.splits option.splits if_splits)
next
  assume "old_parent db inst = Inr None"
  with assms show "pre_save mgr db inst (Some p) = make_child_node mgr inst p db"
    by (simp add: pre_save_def)
qed

theorem invalid_parent_iff_witness:
  "\<not> not_pk (row 2 (Some 1) 2 5 1 1) \<and>
   old_parent [row 1 None 1 6 1 0, row 2 (Some 1) 2 5 1 1, row 3 (Some 2) 3 4 1 2]
      (row 2 (Some 1) 2 5 1 1) = Inr (Some (row 1 None 1 6 1 0)) \<and>
   pk (row 3 (Some 2) 3 4 1 2) \<noteq> pk (row 1 None 1 6 1 0) \<and>
   tree_id (row 3 (Some 2) 3 4 1 2) = tree_id (row 2 (Some 1) 2 5 1 1) \<and>
   snd (snd (pre_save idle_manager
      [row 1 None 1 6 1 0, row 2 (Some 1) 2 5 1 1, row 3 (Some 2) 3 4 1 2]
      (row 2 (Some 1) 2 5 1 1) (Some (row 3 (Some 2) 3 4 1 2)))) = Raised InvalidParent \<and>
   fst (pre_save idle_manager
      [row 1 None 1 6 1 0, row 2 (Some 1) 2 5 1 1, row 3 (Some 2) 3 4 1 2]
      (row 2 (Some 1) 2 5 1 1) (Some (row 3 (Some 2) 3 4 1 2)))
     = [row 1 None 1 6 1 0, row 2 (Some 1) 2 5 1 1, row 3 (Some 2) 3 4 1 2] \<and>
   \<not> not_pk (row 1 None 1 6 1 0) \<and>
   old_parent [row 1 None 1 6 1 0, row 2 (Some 1) 2 5 1 1, row 3 (Some 2) 3 4 1 2]
      (row 1 None 1 6 1 0) = Inr None \<and>
   pre_save idle_manager
      [row 1 None 1 6 1 0, row 2 (Some 1) 2 5 1 1, row 3 (Some 2) 3 4 1 2]
      (row 1 None 1 6 1 0) (Some (row 3 (Some 2) 3 4 1 2))
     = make_child_node idle_manager (row 1 None 1 6 1 0) (row 3 (Some 2) 3 4 1 2)
         [row 1 None 1 6 1 0, row 2 (Some 1) 2 5 1 1, row 3 (Some 2) 3 4 1 2]"
proof -
  have h1: "\<not> not_pk (row 2 (Some 1) 2 5 1 1)"
    by (simp add: not_pk_def row_def)
  have h2: "old_parent [row 1 None 1 6 1 0, row 2 (Some 1) 2 5 1 1, row 3 (Some 2) 3 4 1 2]
      (row 2 (Some 1) 2 5 1 1) = Inr (Some (row 1 None 1 6 1 0))"
    by (simp add: old_parent_def get_row_def getattr_parent_def row_def)
  have h3: "pk (row 3 (Some 2) 3 4 1 2) \<noteq> pk (row 1 None 1 6 1 0)"
    by (simp add: row_def)
  have h4: "tree_id (row 3 (Some 2) 3 4 1 2) = tree_id (row 2 (Some 1) 2 5 1 1)"
    by (simp add: row_def)
  have h5: "lft (row 2 (Some 1) 2 5 1 1) \<le> lft (row 3 (Some 2) 3 4 1 2) \<and>
            lft (row 3 (Some 2) 3 4 1 2) \<le> rght (row 2 (Some 1) 2 5 1 1)"
    by (simp add: row_def)
  have r1: "\<not> not_pk (row 1 None 1 6 1 0)"
    by (simp add: not_pk_def row_def)
  have r2: "old_parent [row 1 None 1 6 1 0, row 2 (Some 1) 2 5 1 1, row 3 (Some 2) 3 4 1 2]
      (row 1 None 1 6 1 0) = Inr None"
    by (simp add: old_parent_def get_row_def getattr_parent_def row_def)
  have r4: "tree_id (row 3 (Some 2) 3 4 1 2) = tree_id (row 1 None 1 6 1 0)"
    by (simp add: row_def)
  show ?thesis
    using h1 h2 h3 h4 h5 r1 r2
      invalid_parent_iff[OF h1 h4, of
        "[row 1 None 1 6 1 0, row 2 (Some 1) 2 5 1 1, row 3 (Some 2) 3 4 1 2]"
        "row 1 None 1 6 1 0" idle_manager]
      invalid_parent_iff[OF r1 r4, of
        "[row 1 None 1 6 1 0, row 2 (Some 1) 2 5 1 1, row 3 (Some 2) 3 4 1 2]"
        "row 1 None 1 6 1 0" idle_manager]
    by simp
qed

text \<open>
  A root given one of its own descendants as parent: R(1,6) with the new parent X(3,4)
  of its tree, whose left value lies in \<open>[1, 6]\<close>. The call is the manager's
  \<open>make_child_node\<close>, and with a manager that returns at once it does not raise
  \<open>InvalidParent\<close>.
\<close>

theorem root_reparent_skips_check:
  "\<not> not_pk (row 1 None 1 6 1 0) \<and>
   tree_id (row 3 (Some 2) 3 4 1 2) = tree_id (row 1 None 1 6 1 0) \<and>
   lft (row 1 None 1 6 1 0) \<le> lft (row 3 (Some 2) 3 4 1 2) \<and>
   lft (row 3 (Some 2) 3 4 1 2) \<le> rght (row 1 None 1 6 1 0) \<and>
   pre_save idle_manager
      [row 1 None 1 6 1 0, row 2 (Some 1) 2 5 1 1, row 3 (Some 2) 3 4 1 2]
      (row 1 None 1 6 1 0) (Some (row 3 (Some 2) 3 4 1 2))
     = make_child_node idle_manager (row 1 None 1 6 1 0) (row 3 (Some 2) 3 4 1 2)
         [row 1 None 1 6 1 0, row 2 (Some 1) 2 5 1 1, row 3 (Some 2) 3 4 1 2] \<and>
   snd (snd (pre_save idle_manager
      [row 1 None 1 6 1 0, row 2 (Some 1) 2 5 1 1, row 3 (Some 2) 3 4 1 2]
      (row 1 None 1 6 1 0) (Some (row 3 (Some 2) 3 4 1 2)))) \<noteq> Raised InvalidParent"
  by (simp add: pre_save_def not_pk_def old_parent_def get_row_def getattr_parent_def
      idle_manager_def row_def)

section \<open>Queries\<close>

text \<open>
  C8. \<open>get_ancestors\<close> is empty when the parent of the instance is none, whatever its
  left and right values are. Otherwise it holds exactly the rows \<open>A\<close> of the table with
  \<open>A.left < left\<close>, \<open>A.right > right\<close> and the tree id of the instance, sorted by
  ascending left value when \<open>ascending\<close> is false and by descending left value when it
  is true.
\<close>

theorem get_ancestors_spec:
  "(parent = None \<longrightarrow> get_ancestors db inst parent ascending = []) \<and>
   (parent \<noteq> None \<longrightarrow>
      mset (get_ancestors db inst parent ascending)
        = mset (filter (\<lambda>A. lft A < lft inst \<and> rght A > rght inst
                             \<and> tree_id A = tree_id inst) db) \<and>
      (\<not> ascending \<longrightarrow> sorted (map lft (get_ancestors db inst parent ascending))) \<and>
      (ascending \<longrightarrow> sorted (rev (map lft (get_ancestors db inst parent ascending)))))"
  by (simp add: get_ancestors_def Let_def rev_map)

theorem get_ancestors_spec_witness:
  "get_ancestors [row 1 None 1 6 1 0, row 2 (Some 1) 2 5 1 1, row 3 (Some 2) 3 4 1 2]
      (row 3 (Some 2) 3 4 1 2) (Some (row 2 (Some 1) 2 5 1 1)) True
     = [row 2 (Some 1) 2 5 1 1, row 1 None 1 6 1 0] \<and>
   sorted (rev (map lft (get_ancestors
      [row 1 None 1 6 1 0, row 2 (Some 1) 2 5 1 1, row 3 (Some 2) 3 4 1 2]
      (row 3 (Some 2) 3 4 1 2) (Some (row 2 (Some 1) 2 5 1 1)) True))) \<and>
   get_ancestors [row 1 None 1 6 1 0, row 2 (Some 1) 2 5 1 1, row 3 (Some 2) 3 4 1 2]
      (row 3 None 3 4 1 2) None True = []"
  using get_ancestors_spec[of "Some (row 2 (Some 1) 2 5 1 1)"
      "[row 1 None 1 6 1 0, row 2 (Some 1) 2 5 1 1, row 3 (Some 2) 3 4 1 2]"
      "row 3 (Some 2) 3 4 1 2" True]
    get_ancestors_spec[of None
      "[row 1 None 1 6 1 0, row 2 (Some 1) 2 5 1 1, row 3 (Some 2) 3 4 1 2]"
      "row 3 None 3 4 1 2" True]
  by (simp add: get_ancestors_def row_def)

lemma parent_chain_root: "parent_pk n = None \<Longrightarrow> parent_chain db k n = []"
  by (cases k) simp_all

lemma is_ancestor_has_parent:
  assumes "is_ancestor db a b"
  shows "parent_pk b \<noteq> None"
proof
  assume "parent_pk b = None"
  then have "parent_chain db (length db) b = []" by (rule parent_chain_root)
  with assms show False by (simp add: is_ancestor_def)
qed

lemma invariant1_distinct:
  assumes "invariant1 db" and "n \<in> set db"
  shows "distinct (map lft (tree_rows db (tree_id n)) @ map rght (tree_rows db (tree_id n)))"
proof -
  let ?vs = "map lft (tree_rows db (tree_id n)) @ map rght (tree_rows db (tree_id n))"
  from assms have "sort ?vs = [1 .. 2 * int (length (tree_rows db (tree_id n)))]"
    by (simp add: invariant1_def)
  then have "distinct (sort ?vs)" by simp
  then show ?thesis by simp
qed

text \<open>
  The rows strictly enclosed by a row \<open>B\<close> are its descendants (invariant 2), there are
  \<open>(right - left - 1) / 2\<close> of them (invariant 4), and their left and right values are
  distinct (invariant 1): so these values are all the integers strictly between the left
  and the right value of \<open>B\<close>.
\<close>

lemma enclosed_values_fill:
  assumes dm: "data_model db" and i1: "invariant1 db" and i2: "invariant2 db"
    and i4: "invariant4 db" and B: "B \<in> set db"
  shows "set (map lft (filter (encloses B) db)) \<union> set (map rght (filter (encloses B) db))
           = {lft B <..< rght B}"
proof -
  let ?T = "tree_rows db (tree_id B)"
  let ?D = "filter (encloses B) db"
  have DT: "?D = filter (encloses B) ?T"
    by (auto simp: tree_rows_def encloses_def intro: filter_cong)
  have dT: "distinct (map lft ?T @ map rght ?T)"
    using invariant1_distinct[OF i1 B] .
  have dD: "distinct (map lft ?D @ map rght ?D)"
    using dT unfolding DT by (auto simp: distinct_map_filter)
  have sub: "set (map lft ?D) \<union> set (map rght ?D) \<subseteq> {lft B <..< rght B}"
    using dm by (auto simp: encloses_def data_model_def)
  have "actual_descendants db B = ?D"
    unfolding actual_descendants_def using i2 B
    by (intro filter_cong) (auto simp: invariant2_def)
  with i4 B have cnt: "odd (rght B - lft B)"
    "(rght B - lft B - 1) div 2 = int (length ?D)"
    by (auto simp: invariant4_def get_descendant_count_def)
  then have w: "rght B - lft B - 1 = 2 * int (length ?D)"
    by presburger
  have "card (set (map lft ?D) \<union> set (map rght ?D)) = length (map lft ?D @ map rght ?D)"
    using distinct_card[OF dD] by simp
  also have "\<dots> = 2 * length ?D" by simp
  also have "\<dots> = card {lft B <..< rght B}" using w by simp
  finally have "card (set (map lft ?D) \<union> set (map rght ?D)) = card {lft B <..< rght B}" .
  with sub show ?thesis
    by (intro card_subset_eq) simp_all
qed

lemma inside_is_enclosed:
  assumes dm: "data_model db" and i1: "invariant1 db" and i2: "invariant2 db"
    and i4: "invariant4 db" and A: "A \<in> set db" and B: "B \<in> set db"
    and t: "tree_id A = tree_id B" and l: "lft B < lft A" "lft A < rght B"
  shows "encloses B A"
proof -
  let ?T = "tree_rows db (tree_id B)"
  let ?D = "filter (encloses B) db"
  have "lft A \<in> {lft B <..< rght B}" using l by simp
  then have "lft A \<in> set (map lft ?D) \<union> set (map rght ?D)"
    using enclosed_values_fill[OF dm i1 i2 i4 B] by simp
  then obtain d where d: "d \<in> set db" "encloses B d" and v: "lft d = lft A \<or> rght d = lft A"
    by auto
  have dT: "d \<in> set ?T" using d by (simp add: tree_rows_def encloses_def)
  have AT: "A \<in> set ?T" using A t by (simp add: tree_rows_def)
  have dist: "distinct (map lft ?T @ map rght ?T)"
    using invariant1_distinct[OF i1 B] .
  then have inj: "inj_on lft (set ?T)" and disj: "set (map lft ?T) \<inter> set (map rght ?T) = {}"
    by (simp_all add: distinct_map)
  from v show ?thesis
  proof
    assume "lft d = lft A"
    with inj dT AT have "d = A" by (auto dest: inj_onD)
    with d show ?thesis by simp
  next
    assume "rght d = lft A"
    moreover have "rght d \<in> set (map rght ?T)" using dT by simp
    moreover have "lft A \<in> set (map lft ?T)" using AT by simp
    ultimately show ?thesis using disj by auto
  qed
qed

text \<open>
  C9. In a table that satisfies the data model and invariants 1 to 5, for stored rows
  \<open>A\<close> and \<open>B\<close>, where the parent attribute of \<open>A\<close> is none exactly when its foreign
  key is empty: \<open>A\<close> is among the descendants of \<open>B\<close> (without \<open>B\<close> itself) if and only
  if \<open>B\<close> is among the ancestors of \<open>A\<close>.
\<close>

theorem ancestor_descendant_duality:
  assumes "well_formed db" and "A \<in> set db" and "B \<in> set db"
    and "(parent = None) = (parent_pk A = None)"
  shows "A \<in> set (get_descendants db B False) \<longleftrightarrow> B \<in> set (get_ancestors db A parent False)"
proof
  from assms(1) have dm: "data_model db" and i1: "invariant1 db" and i2: "invariant2 db"
    and i4: "invariant4 db" by (simp_all add: well_formed_def)
  {
    assume "A \<in> set (get_descendants db B False)"
    then have t: "tree_id A = tree_id B" and l: "lft B < lft A" "lft A < rght B"
      by (simp_all add: get_descendants_def)
    have e: "encloses B A"
      using inside_is_enclosed[OF dm i1 i2 i4 assms(2,3) t l] .
    with i2 assms(2,3) have "is_ancestor db B A" by (simp add: invariant2_def)
    then have "parent_pk A \<noteq> None" by (rule is_ancestor_has_parent)
    with assms(4) have "parent \<noteq> None" by simp
    with e assms(3) show "B \<in> set (get_ancestors db A parent False)"
      by (simp add: get_ancestors_def encloses_def)
  }
  {
    assume "B \<in> set (get_ancestors db A parent False)"
    then have "lft B < lft A" "rght A < rght B" "tree_id B = tree_id A"
      by (simp_all add: get_ancestors_def split: if_splits)
    moreover have "lft A < rght A" using dm assms(2) by (simp add: data_model_def)
    ultimately show "A \<in> set (get_descendants db B False)"
      using assms(2) by (simp add: get_descendants_def)
  }
qed

theorem ancestor_descendant_duality_witness:
  "well_formed [row 1 None 1 6 1 0, row 2 (Some 1) 2 5 1 1, row 3 (Some 2) 3 4 1 2] \<and>
   row 3 (Some 2) 3 4 1 2 \<in> set (get_descendants
      [row 1 None 1 6 1 0, row 2 (Some 1) 2 5 1 1, row 3 (Some 2) 3 4 1 2]
      (row 1 None 1 6 1 0) False) \<and>
   row 1 None 1 6 1 0 \<in> set (get_ancestors
      [row 1 None 1 6 1 0, row 2 (Some 1) 2 5 1 1, row 3 (Some 2) 3 4 1 2]
      (row 3 (Some 2) 3 4 1 2) (Some (row 2 (Some 1) 2 5 1 1)) False)"
proof -
  have h1: "well_formed [row 1 None 1 6 1 0, row 2 (Some 1) 2 5 1 1, row 3 (Some 2) 3 4 1 2]"
    by (simp add: well_formed_def data_model_def invariant1_def invariant2_def invariant3_def
        invariant4_def invariant5_def tree_rows_def encloses_def is_ancestor_def
        actual_descendants_def get_descendant_count_def row_def upto.simps)
  have h2: "row 3 (Some 2) 3 4 1 2 \<in> set [row 1 None 1 6 1 0, row 2 (Some 1) 2 5 1 1, row 3 (Some 2) 3 4 1 2]"
    and h3: "row 1 None 1 6 1 0 \<in> set [row 1 None 1 6 1 0, row 2 (Some 1) 2 5 1 1, row 3 (Some 2) 3 4 1 2]"
    by simp_all
  have h4: "(Some (row 2 (Some 1) 2 5 1 1) = None) = (parent_pk (row 3 (Some 2) 3 4 1 2) = None)"
    by (simp add: row_def)
  have d: "row 3 (Some 2) 3 4 1 2 \<in> set (get_descendants
      [row 1 None 1 6 1 0, row 2 (Some 1) 2 5 1 1, row 3 (Some 2) 3 4 1 2]
      (row 1 None 1 6 1 0) False)"
    by (simp add: get_descendants_def row_def)
  show ?thesis
    using h1 d ancestor_descendant_duality[OF h1 h2 h3 h4] by simp
qed

section \<open>Re-parenting inside a tree\<close>

lemma in_tree_move_store:
  assumes "\<not> not_pk inst"
    and "old_parent db inst = Inr (Some oldp)"
    and "pk p \<noteq> pk oldp"
    and "tree_id p = tree_id inst"
    and "\<not> (lft inst \<le> lft p \<and> lft p \<le> rght inst)"
  shows "fst (pre_save mgr db inst (Some p)) =
     move_subtree_query
       (lft inst) (rght inst) (rght p - (rght inst - lft inst + 1) - lft inst)
       (min (lft inst) (rght p - (rght inst - lft inst + 1))) (max (rght inst) (rght p - 1))
       (if rght p - (rght inst - lft inst + 1) - lft inst > 0
        then - (rght inst - lft inst + 1) else rght inst - lft inst + 1)
       (lft inst) (rght inst) (rght p - (rght inst - lft inst + 1) - lft inst)
       (min (lft inst) (rght p - (rght inst - lft inst + 1))) (max (rght inst) (rght p - 1))
       (if rght p - (rght inst - lft inst + 1) - lft inst > 0
        then - (rght inst - lft inst + 1) else rght inst - lft inst + 1)
       (tree_id inst)
       (if level p \<noteq> level oldp
        then level_change_query (level inst - level p - 1) (lft inst) (rght inst) (tree_id inst) db
        else db)"
proof (cases "lft inst \<le> lft p")
  case True
  with assms(5) have "\<not> lft p \<le> rght inst" by simp
  with assms(1-4) show ?thesis
    by (simp add: pre_save_def Let_def split: prod.splits option.splits)
next
  case False
  with assms(1-4) show ?thesis
    by (simp add: pre_save_def Let_def split: prod.splits option.splits)
qed

lemma level_change_query_nth:
  "i < length db \<Longrightarrow> level_change_query c a b t db ! i =
     (if lft (db ! i) \<ge> a \<and> lft (db ! i) \<le> b \<and> tree_id (db ! i) = t
      then (db ! i)\<lparr>level := level (db ! i) - c\<rparr> else db ! i)"
  by (simp add: level_change_query_def)

lemma move_subtree_query_nth:
  "i < length db \<Longrightarrow> move_subtree_query p1 p2 p3 p4 p5 p6 p7 p8 p9 p10 p11 p12 p13 db ! i =
     (if tree_id (db ! i) = p13
      then (db ! i)\<lparr>lft := (if lft (db ! i) \<ge> p1 \<and> lft (db ! i) \<le> p2 then lft (db ! i) + p3
                             else if lft (db ! i) \<ge> p4 \<and> lft (db ! i) \<le> p5 then lft (db ! i) + p6
                             else lft (db ! i)),
                    rght := (if rght (db ! i) \<ge> p7 \<and> rght (db ! i) \<le> p8 then rght (db ! i) + p9
                             else if rght (db ! i) \<ge> p10 \<and> rght (db ! i) \<le> p11 then rght (db ! i) + p12
                             else rght (db ! i))\<rparr>
      else db ! i)"
  by (simp add: move_subtree_query_def)

lemma length_queries:
  "length (level_change_query c a b t db) = length db"
  "length (move_subtree_query p1 p2 p3 p4 p5 p6 p7 p8 p9 p10 p11 p12 p13 db) = length db"
  by (simp_all add: level_change_query_def move_subtree_query_def)

text \<open>
  C10. An in-tree re-parenting that passes the validity check leaves the number of rows,
  and in every row the key, the parent column and the tree id, as they were. A row of
  another tree is unchanged altogether. A left value below
  \<open>min(old_left, new_left)\<close> or above \<open>max(old_right, new_right)\<close> is unchanged, and so
  is such a right value. A level changes only when the levels of the new and the old
  parent differ, and then only in rows of the tree whose left value lies in
  \<open>[old_left, old_right]\<close>.
\<close>

theorem in_tree_move_frame:
  assumes "\<not> not_pk inst"
    and "old_parent db inst = Inr (Some oldp)"
    and "pk p \<noteq> pk oldp"
    and "tree_id p = tree_id inst"
    and "\<not> (lft inst \<le> lft p \<and> lft p \<le> rght inst)"
    and "i < length db"
  shows "length (fst (pre_save mgr db inst (Some p))) = length db \<and>
         pk (fst (pre_save mgr db inst (Some p)) ! i) = pk (db ! i) \<and>
         parent_pk (fst (pre_save mgr db inst (Some p)) ! i) = parent_pk (db ! i) \<and>
         tree_id (fst (pre_save mgr db inst (Some p)) ! i) = tree_id (db ! i) \<and>
         (tree_id (db ! i) \<noteq> tree_id inst \<longrightarrow> fst (pre_save mgr db inst (Some p)) ! i = db ! i) \<and>
         (lft (db ! i) < min (lft inst) (rght p - (rght inst - lft inst + 1)) \<or>
          lft (db ! i) > max (rght inst) (rght p - 1)
            \<longrightarrow> lft (fst (pre_save mgr db inst (Some p)) ! i) = lft (db ! i)) \<and>
         (rght (db ! i) < min (lft inst) (rght p - (rght inst - lft inst + 1)) \<or>
          rght (db ! i) > max (rght inst) (rght p - 1)
            \<longrightarrow> rght (fst (pre_save mgr db inst (Some p)) ! i) = rght (db ! i)) \<and>
         (level (fst (pre_save mgr db inst (Some p)) ! i) \<noteq> level (db ! i)
            \<longrightarrow> level p \<noteq> level oldp \<and> tree_id (db ! i) = tree_id inst \<and>
                lft inst \<le> lft (db ! i) \<and> lft (db ! i) \<le> rght inst)"
proof (cases "level p \<noteq> level oldp")
  case True
  show ?thesis
    unfolding in_tree_move_store[OF assms(1-5)]
    using assms(6) True
    by (simp add: move_subtree_query_nth level_change_query_nth length_queries)
next
  case False
  show ?thesis
    unfolding in_tree_move_store[OF assms(1-5)]
    using assms(6) False
    by (simp add: move_subtree_query_nth length_queries)
qed

theorem in_tree_move_frame_witness:
  "\<not> not_pk (row 2 (Some 4) 2 3 1 1) \<and>
   old_parent [row 1 None 1 8 1 0, row 2 (Some 1) 2 3 1 1, row 3 (Some 1) 4 5 1 1,
               row 4 (Some 1) 6 7 1 1, row 5 None 1 2 2 0] (row 2 (Some 4) 2 3 1 1)
     = Inr (Some (row 1 None 1 8 1 0)) \<and>
   pk (row 4 (Some 1) 6 7 1 1) \<noteq> pk (row 1 None 1 8 1 0) \<and>
   tree_id (row 4 (Some 1) 6 7 1 1) = tree_id (row 2 (Some 4) 2 3 1 1) \<and>
   \<not> (lft (row 2 (Some 4) 2 3 1 1) \<le> lft (row 4 (Some 1) 6 7 1 1) \<and>
      lft (row 4 (Some 1) 6 7 1 1) \<le> rght (row 2 (Some 4) 2 3 1 1)) \<and>
   fst (pre_save idle_manager
          [row 1 None 1 8 1 0, row 2 (Some 1) 2 3 1 1, row 3 (Some 1) 4 5 1 1,
           row 4 (Some 1) 6 7 1 1, row 5 None 1 2 2 0]
          (row 2 (Some 4) 2 3 1 1) (Some (row 4 (Some 1) 6 7 1 1))) ! 4
     = row 5 None 1 2 2 0 \<and>
   level (fst (pre_save idle_manager
          [row 1 None 1 8 1 0, row 2 (Some 1) 2 3 1 1, row 3 (Some 1) 4 5 1 1,
           row 4 (Some 1) 6 7 1 1, row 5 None 1 2 2 0]
          (row 2 (Some 4) 2 3 1 1) (Some (row 4 (Some 1) 6 7 1 1))) ! 1) = 2"
proof -
  have h1: "\<not> not_pk (row 2 (Some 4) 2 3 1 1)"
    by (simp add: not_pk_def row_def)
  have h2: "old_parent [row 1 None 1 8 1 0, row 2 (Some 1) 2 3 1 1, row 3 (Some 1) 4 5 1 1,
               row 4 (Some 1) 6 7 1 1, row 5 None 1 2 2 0] (row 2 (Some 4) 2 3 1 1)
     = Inr (Some (row 1 None 1 8 1 0))"
    by (simp add: old_parent_def get_row_def getattr_parent_def row_def)
  have h3: "pk (row 4 (Some 1) 6 7 1 1) \<noteq> pk (row 1 None 1 8 1 0)"
    by (simp add: row_def)
  have h4: "tree_id (row 4 (Some 1) 6 7 1 1) = tree_id (row 2 (Some 4) 2 3 1 1)"
    by (simp add: row_def)
  have h5: "\<not> (lft (row 2 (Some 4) 2 3 1 1) \<le> lft (row 4 (Some 1) 6 7 1 1) \<and>
      lft (row 4 (Some 1) 6 7 1 1) \<le> rght (row 2 (Some 4) 2 3 1 1))"
    by (simp add: row_def)
  have h6: "4 < length [row 1 None 1 8 1 0, row 2 (Some 1) 2 3 1 1, row 3 (Some 1) 4 5 1 1,
               row 4 (Some 1) 6 7 1 1, row 5 None 1 2 2 0]"
    by simp
  show ?thesis
    using h1 h2 h3 h4 h5 in_tree_move_frame[OF h1 h2 h3 h4 h5 h6, of idle_manager]
    by (simp add: pre_save_def not_pk_def old_parent_def get_row_def getattr_parent_def
        move_subtree_query_def level_change_query_def row_def Let_def)
qed

text \<open>
  C4. The new parent B(6,7) has the level of the old parent A(2,5) and passes the
  validity check for X(3,4). The subtree is moved in the table, the left and right
  attributes of the instance are set, and reading \<open>level_change\<close> at line 143 raises
  \<open>UnboundLocalError\<close>: the save does not complete.
\<close>

theorem equal_levels_unbound_level_change:
  "pre_save mgr
     [row 1 None 1 8 1 0, row 2 (Some 1) 2 5 1 1, row 3 (Some 2) 3 4 1 2, row 4 (Some 1) 6 7 1 1]
     (row 3 (Some 4) 3 4 1 2) (Some (row 4 (Some 1) 6 7 1 1))
   = ([row 1 None 1 8 1 0, row 2 (Some 1) 2 3 1 1, row 3 (Some 2) 5 6 1 2, row 4 (Some 1) 4 7 1 1],
      row 3 (Some 4) 5 6 1 2,
      Raised UnboundLocalError)"
  by (simp add: pre_save_def not_pk_def old_parent_def get_row_def getattr_parent_def
      move_subtree_query_def level_change_query_def row_def Let_def)

text \<open>
  C2. A leftward in-tree move: C(8,9) is given the parent A(2,5), which has the child
  A1(3,4). The instance gets \<open>new_left = 5 - 2 = 3\<close> and \<open>new_right = 4\<close> as the formulas say,
  and afterwards A1, still a child of A, is at (5,6): its left value is larger than the
  moved node's, so the moved node is not the rightmost child.
\<close>

theorem leftward_move_not_rightmost:
  "pre_save mgr
     [row 1 None 1 10 1 0, row 2 (Some 1) 2 5 1 1, row 3 (Some 2) 3 4 1 2,
      row 4 (Some 1) 6 7 1 1, row 5 (Some 1) 8 9 1 1]
     (row 5 (Some 2) 8 9 1 1) (Some (row 2 (Some 1) 2 5 1 1))
   = ([row 1 None 1 10 1 0, row 2 (Some 1) 2 7 1 1, row 3 (Some 2) 5 6 1 2,
       row 4 (Some 1) 8 9 1 1, row 5 (Some 1) 3 4 1 2],
      row 5 (Some 2) 3 4 1 2,
      Returned) \<and>
   parent_pk (row 3 (Some 2) 5 6 1 2) = pk (row 2 (Some 1) 2 7 1 1) \<and>
   lft (row 3 (Some 2) 5 6 1 2) > lft (row 5 (Some 2) 3 4 1 2)"
  by (simp add: pre_save_def not_pk_def old_parent_def get_row_def getattr_parent_def
      move_subtree_query_def level_change_query_def row_def Let_def)

text \<open>
  C1. From the empty table, a root and three children are created and the last child
  (key 4) is given the first child (key 2) as its parent. Every operation completes.
  Afterwards the node with key 2 is at (4,5), so that its descendant count is 0, while
  the node with key 4 is its child.
\<close>

theorem leftward_move_breaks_descendant_count:
  "run mgr [] [Create None, Create (Some 1), Create (Some 1), Create (Some 1)]
     = Inr [row 1 None 1 8 1 0, row 2 (Some 1) 2 3 1 1, row 3 (Some 1) 4 5 1 1,
            row 4 (Some 1) 6 7 1 1] \<and>
   run mgr [] [Create None, Create (Some 1), Create (Some 1), Create (Some 1),
               Reparent 4 (Some 2)]
     = Inr [row 1 None 3 8 1 0, row 2 (Some 1) 4 5 1 1, row 3 (Some 1) 6 7 1 1,
            row 4 (Some 2) 1 2 1 2] \<and>
   get_descendant_count (row 2 (Some 1) 4 5 1 1) = 0 \<and>
   actual_descendants [row 1 None 3 8 1 0, row 2 (Some 1) 4 5 1 1, row 3 (Some 1) 6 7 1 1,
                       row 4 (Some 2) 1 2 1 2] (row 2 (Some 1) 4 5 1 1)
     = [row 4 (Some 2) 1 2 1 2]"
  by (simp add: save_def pre_save_def not_pk_def old_parent_def get_row_def
      getattr_parent_def move_subtree_query_def level_change_query_def create_space_def
      get_next_tree_id_def next_pk_def row_def Let_def get_descendant_count_def
      actual_descendants_def is_ancestor_def)

end
